theory Spec2Isabelle
  imports Main
begin

section \<open>JavaScript values and the built-ins the handlers call\<close>

text \<open>
  The two Pages Functions (\<open>functions/api/approve.js\<close> and the status relay
  \<open>POST/GET /api/sync\<close>) work on documents obtained from \<open>JSON.parse\<close>. A document is
  a \<open>json_value\<close>; the JavaScript value \<open>undefined\<close> (a missing property) is \<open>None\<close> of
  \<open>json_value option\<close>. An object is the list of its own properties in insertion order
  (the keys of a parsed object are distinct). Numbers are the integers JavaScript prints
  in plain decimal notation. A string is a \<open>char list\<close> of the bytes of its UTF-8 text.
\<close>

datatype json_value =
    JNull
  | JBool bool
  | JNum int
  | JStr string
  | JArr "json_value list"
  | JObj "(string \<times> json_value) list"

datatype exn = TypeError

text \<open>Truthiness (\<open>ToBoolean\<close>), as \<open>!x\<close>, \<open>x || y\<close>, \<open>x ? a : b\<close> and \<open>if (x)\<close> test it.\<close>

fun truthy :: "json_value option \<Rightarrow> bool" where
  "truthy None = False"
| "truthy (Some JNull) = False"
| "truthy (Some (JBool b)) = b"
| "truthy (Some (JNum n)) = (n \<noteq> 0)"
| "truthy (Some (JStr s)) = (s \<noteq> [])"
| "truthy (Some (JArr xs)) = True"
| "truthy (Some (JObj kvs)) = True"

text \<open>\<open>x || d\<close> where \<open>d\<close> is a defined value.\<close>

fun logical_or :: "json_value option \<Rightarrow> json_value \<Rightarrow> json_value" where
  "logical_or None d = d"
| "logical_or (Some v) d = (if truthy (Some v) then v else d)"

text \<open>
  Property access \<open>v.key\<close> (and the destructuring \<open>const { key } = v\<close>): a \<open>TypeError\<close> on
  \<open>null\<close>, the own property of an object, \<open>undefined\<close> on every other value (none of the
  keys the handlers read is a property of a prototype).
\<close>

fun get_prop :: "json_value \<Rightarrow> string \<Rightarrow> exn + json_value option" where
  "get_prop JNull key = Inl TypeError"
| "get_prop (JObj kvs) key = Inr (map_of kvs key)"
| "get_prop v key = Inr None"

text \<open>
  Strict equality \<open>a === b\<close> of a value of one parsed document with a value of another:
  primitives are compared by value, and an array or an object is never identical to one
  that was allocated by another \<open>JSON.parse\<close>.
\<close>

fun strict_equals :: "json_value option \<Rightarrow> json_value option \<Rightarrow> bool" where
  "strict_equals None None = True"
| "strict_equals (Some JNull) (Some JNull) = True"
| "strict_equals (Some (JBool a)) (Some (JBool b)) = (a = b)"
| "strict_equals (Some (JNum a)) (Some (JNum b)) = (a = b)"
| "strict_equals (Some (JStr a)) (Some (JStr b)) = (a = b)"
| "strict_equals a b = False"

fun join :: "string \<Rightarrow> string list \<Rightarrow> string" where
  "join sep [] = []"
| "join sep [x] = x"
| "join sep (x # y # ys) = x @ sep @ join sep (y # ys)"

definition digit :: "nat \<Rightarrow> char" where
  "digit d = char_of (48 + d)"

fun decimal :: "nat \<Rightarrow> string" where
  "decimal n = (if n < 10 then [digit n] else decimal (n div 10) @ [digit (n mod 10)])"

definition Number_toString :: "int \<Rightarrow> string" where
  "Number_toString n = (if n < 0 then CHR ''-'' # decimal (nat (- n)) else decimal (nat n))"

text \<open>
  \<open>ToString\<close>, as a template literal and \<open>+\<close> with a string operand apply it: an array is
  its elements joined by commas (\<open>null\<close> as the empty string), an object is
  \<open>[object Object]\<close>.
\<close>

fun ToString :: "json_value \<Rightarrow> string" where
  "ToString JNull = ''null''"
| "ToString (JBool b) = (if b then ''true'' else ''false'')"
| "ToString (JNum n) = Number_toString n"
| "ToString (JStr s) = s"
| "ToString (JArr xs) = join '','' (map (\<lambda>x. if x = JNull then [] else ToString x) xs)"
| "ToString (JObj kvs) = ''[object Object]''"

fun ToString_opt :: "json_value option \<Rightarrow> string" where
  "ToString_opt None = ''undefined''"
| "ToString_opt (Some v) = ToString v"

text \<open>\<open>JSON.stringify\<close> without indentation.\<close>

definition hex_digit :: "nat \<Rightarrow> char" where
  "hex_digit d = (if d < 10 then char_of (48 + d) else char_of (87 + d))"

definition quote_char :: "char \<Rightarrow> string" where
  "quote_char c =
     (let n = (of_char c :: nat) in
      if n = 0x22 then [CHR 0x5C, CHR 0x22]
      else if n = 0x5C then [CHR 0x5C, CHR 0x5C]
      else if n = 0x08 then [CHR 0x5C, CHR ''b'']
      else if n = 0x09 then [CHR 0x5C, CHR ''t'']
      else if n = 0x0A then [CHR 0x5C, CHR ''n'']
      else if n = 0x0C then [CHR 0x5C, CHR ''f'']
      else if n = 0x0D then [CHR 0x5C, CHR ''r'']
      else if n < 0x20 then
        [CHR 0x5C, CHR ''u'', CHR ''0'', CHR ''0'', hex_digit (n div 16), hex_digit (n mod 16)]
      else [c])"

definition QuoteJSONString :: "string \<Rightarrow> string" where
  "QuoteJSONString s = CHR 0x22 # concat (map quote_char s) @ [CHR 0x22]"

fun JSON_stringify :: "json_value \<Rightarrow> string" where
  "JSON_stringify JNull = ''null''"
| "JSON_stringify (JBool b) = (if b then ''true'' else ''false'')"
| "JSON_stringify (JNum n) = Number_toString n"
| "JSON_stringify (JStr s) = QuoteJSONString s"
| "JSON_stringify (JArr xs) = ''['' @ join '','' (map JSON_stringify xs) @ '']''"
| "JSON_stringify (JObj kvs) =
     ''{'' @ join '',''
        (map (\<lambda>kv. QuoteJSONString (fst kv) @ '':'' @ JSON_stringify (snd kv)) kvs) @ ''}''"

text \<open>
  An object literal whose property values may be \<open>undefined\<close>. The handlers only ever
  serialise such an object, and \<open>JSON.stringify\<close> leaves a property out whose value is
  \<open>undefined\<close>.
\<close>

fun object_literal :: "(string \<times> json_value option) list \<Rightarrow> (string \<times> json_value) list" where
  "object_literal [] = []"
| "object_literal ((k, None) # kvs) = object_literal kvs"
| "object_literal ((k, Some v) # kvs) = (k, v) # object_literal kvs"

text \<open>
  \<open>String.prototype.toLowerCase\<close> on the ASCII letters; the bytes of every other
  character are kept. The call \<open>email.toLowerCase()\<close> is a \<open>TypeError\<close> on a value that
  is not a string (a parsed document holds no function).
\<close>

definition lower_char :: "char \<Rightarrow> char" where
  "lower_char c =
     (let n = (of_char c :: nat) in if 65 \<le> n \<and> n \<le> 90 then char_of (n + 32) else c)"

fun toLowerCase :: "json_value \<Rightarrow> exn + string" where
  "toLowerCase (JStr s) = Inr (map lower_char s)"
| "toLowerCase v = Inl TypeError"

text \<open>\<open>s.replace(pat, rep)\<close> with a string pattern: the first occurrence only.\<close>

fun replace :: "string \<Rightarrow> string \<Rightarrow> string \<Rightarrow> string" where
  "replace pat rep [] = (if pat = [] then rep else [])"
| "replace pat rep (c # cs) =
     (if take (length pat) (c # cs) = pat then rep @ drop (length pat) (c # cs)
      else c # replace pat rep cs)"

section \<open>Requests, responses and the environment\<close>

text \<open>
  A request carries what the handlers read from it: the \<open>Authorization\<close> header, the
  payload of the Cloudflare Access token of the \<open>CF_Authorization\<close> cookie (\<open>None\<close> when
  the cookie is missing or its token does not decode, which \<open>getAuthenticatedEmail\<close>
  answers with \<open>null\<close>), and the document \<open>request.json()\<close> yields (\<open>None\<close> when it
  throws).

  A KV namespace maps keys to texts. \<open>DASHBOARD_DATA\<close> keeps its texts as they are,
  since \<open>GET /api/sync\<close> hands the text of \<open>status\<close> out unparsed. Every text of
  \<open>APPROVALS\<close> is written by \<open>JSON.stringify\<close> and read by \<open>JSON.parse\<close>; the namespace
  keeps the document between the two, and since the text of a document is never empty
  (\<open>JSON_stringify_not_empty\<close> below), \<open>if (raw)\<close> on such a text tests whether the key
  is there. A binding that is not configured is \<open>None\<close>.
\<close>

record request =
  authorization :: "string option"
  cf_payload :: "json_value option"
  json_body :: "json_value option"

record response =
  status :: nat
  headers :: "(string \<times> string) list"
  body :: string

record env =
  SYNC_SECRET :: "string option"
  DASHBOARD_DATA :: "(string \<rightharpoonup> string) option"
  APPROVALS :: "(string \<rightharpoonup> json_value) option"

datatype outcome = Returned response | Threw exn

definition json :: "json_value \<Rightarrow> nat \<Rightarrow> response" where
  "json data st =
     \<lparr>status = st,
      headers = [(''Content-Type'', ''application/json''), (''Cache-Control'', ''no-store'')],
      body = JSON_stringify data\<rparr>"

section \<open>The approval ledger: POST /api/approve\<close>

definition getAuthenticatedEmail :: "request \<Rightarrow> json_value" where
  "getAuthenticatedEmail request =
     (case cf_payload request of
        None \<Rightarrow> JNull
      | Some payload \<Rightarrow>
          (case get_prop payload ''email'' of
             Inl e \<Rightarrow> JNull
           | Inr v \<Rightarrow> logical_or v JNull))"

definition ALLOWED_APPROVERS :: "string list" where
  "ALLOWED_APPROVERS = [''rinvest4@gmail.com'', ''amandalastudios@gmail.com'']"

definition forbidden_message :: string where
  "forbidden_message =
     ''Forbidden '' @ [CHR 0xE2, CHR 0x80, CHR 0x94] @ '' not an authorized approver''"

definition invalid_action_message :: string where
  "invalid_action_message =
     ''action must be '' @ [CHR 0x22] @ ''approve'' @ [CHR 0x22] @ '' or '' @
     [CHR 0x22] @ ''reject'' @ [CHR 0x22]"

text \<open>
  The callback \<open>(item) => item.id !== id\<close> and \<open>pending.filter\<close> with it on the items
  of an array: an item that is \<open>null\<close> makes the callback throw.
\<close>

definition keep_item :: "json_value option \<Rightarrow> json_value \<Rightarrow> exn + bool" where
  "keep_item ident item =
     (case get_prop item ''id'' of
        Inl e \<Rightarrow> Inl e
      | Inr v \<Rightarrow> Inr (\<not> strict_equals v ident))"

fun filter_items :: "json_value option \<Rightarrow> json_value list \<Rightarrow> exn + json_value list" where
  "filter_items ident [] = Inr []"
| "filter_items ident (item # items) =
     (case keep_item ident item of
        Inl e \<Rightarrow> Inl e
      | Inr keep \<Rightarrow>
          (case filter_items ident items of
             Inl e \<Rightarrow> Inl e
           | Inr rest \<Rightarrow> Inr (if keep then item # rest else rest)))"

text \<open>The call \<open>pending.filter(...)\<close>: a \<open>TypeError\<close> when \<open>pending\<close> is not an array.\<close>

fun filter_pending :: "json_value option \<Rightarrow> json_value \<Rightarrow> exn + json_value list" where
  "filter_pending ident (JArr items) = filter_items ident items"
| "filter_pending ident v = Inl TypeError"

text \<open>\<open>historyRaw ? JSON.parse(historyRaw) : []\<close> on the namespace.\<close>

definition read_history :: "(string \<rightharpoonup> json_value) \<Rightarrow> json_value" where
  "read_history kv = (case kv ''history'' of None \<Rightarrow> JArr [] | Some history \<Rightarrow> history)"

text \<open>
  \<open>history.unshift(decision)\<close> followed by \<open>history.slice(0, 100)\<close>: a \<open>TypeError\<close> when
  \<open>history\<close> is not an array.
\<close>

fun unshift_slice :: "json_value \<Rightarrow> json_value \<Rightarrow> exn + json_value list" where
  "unshift_slice decision (JArr entries) = Inr (take 100 (decision # entries))"
| "unshift_slice decision v = Inl TypeError"

text \<open>
  The checks of \<open>onRequestPost\<close> in \<open>approve.js\<close>, in the order of the source, up to the
  construction of the decision: either the response returned early (or the exception that
  escapes), or the caller's email with the \<open>id\<close>, \<open>action\<close> and \<open>note\<close> of the body.
\<close>

definition validate ::
  "request \<Rightarrow>
     outcome + (json_value \<times> json_value option \<times> json_value option \<times> json_value option)" where
  "validate request =
     (let email = getAuthenticatedEmail request in
      if \<not> truthy (Some email) then
        Inl (Returned (json (JObj [(''error'', JStr ''Unauthorized'')]) 401))
      else
        (case toLowerCase email of
           Inl e \<Rightarrow> Inl (Threw e)
         | Inr lowered \<Rightarrow>
             (if lowered \<notin> set ALLOWED_APPROVERS then
                Inl (Returned (json (JObj [(''error'', JStr forbidden_message)]) 403))
              else
                (case json_body request of
                   None \<Rightarrow>
                     Inl (Returned (json (JObj [(''error'', JStr ''Invalid JSON body'')]) 400))
                 | Some payload \<Rightarrow>
                     (case get_prop payload ''id'' of
                        Inl e \<Rightarrow> Inl (Threw e)
                      | Inr ident \<Rightarrow>
                     (case get_prop payload ''action'' of
                        Inl e \<Rightarrow> Inl (Threw e)
                      | Inr action \<Rightarrow>
                     (case get_prop payload ''note'' of
                        Inl e \<Rightarrow> Inl (Threw e)
                      | Inr note \<Rightarrow>
                     (if \<not> truthy ident \<or> \<not> truthy action then
                        Inl (Returned
                               (json (JObj [(''error'',
                                  JStr ''Missing required fields: id, action'')]) 400))
                      else
                     (if action \<notin> set [Some (JStr ''approve''), Some (JStr ''reject'')] then
                        Inl (Returned
                               (json (JObj [(''error'', JStr invalid_action_message)]) 400))
                      else Inr (email, ident, action, note))))))))))"

text \<open>
  The object \<open>{ id, action, note: note || "", by: email, at: new Date().toISOString() }\<close>;
  \<open>now\<close> is what \<open>new Date().toISOString()\<close> returns.
\<close>

definition build_decision ::
  "string \<Rightarrow> json_value \<times> json_value option \<times> json_value option \<times> json_value option \<Rightarrow>
     (string \<times> json_value) list" where
  "build_decision now checked =
     (case checked of (email, ident, action, note) \<Rightarrow>
        object_literal
          [(''id'', ident),
           (''action'', action),
           (''note'', Some (logical_or note (JStr []))),
           (''by'', Some email),
           (''at'', Some (JStr now))])"

text \<open>
  The \<open>if (env.APPROVALS) { ... }\<close> block on the namespace \<open>kv\<close>. Each \<open>put\<close> takes effect
  when it runs, so the namespace that comes back with a \<open>TypeError\<close> holds the writes made
  before the throw.
\<close>

definition store_decision ::
  "json_value option \<Rightarrow> json_value \<Rightarrow> (string \<rightharpoonup> json_value) \<Rightarrow>
     exn option \<times> (string \<rightharpoonup> json_value)" where
  "store_decision ident decision kv =
     (let kv1 = kv(''decision:'' @ ToString_opt ident \<mapsto> decision) in
      case (case kv1 ''pending'' of
              None \<Rightarrow> Inr kv1
            | Some pending \<Rightarrow>
                (case filter_pending ident pending of
                   Inl e \<Rightarrow> Inl e
                 | Inr updated \<Rightarrow> Inr (kv1(''pending'' \<mapsto> JArr updated)))) of
        Inl e \<Rightarrow> (Some e, kv1)
      | Inr kv2 \<Rightarrow>
          (case unshift_slice decision (read_history kv2) of
             Inl e \<Rightarrow> (Some e, kv2)
           | Inr entries \<Rightarrow> (None, kv2(''history'' \<mapsto> JArr entries))))"

text \<open>
  \<open>onRequestPost\<close> of \<open>approve.js\<close>. The result is the response (or the exception that
  escapes the handler) and the environment with the writes made.
\<close>

definition approve_onRequestPost :: "string \<Rightarrow> request \<Rightarrow> env \<Rightarrow> outcome \<times> env" where
  "approve_onRequestPost now request env =
     (case validate request of
        Inl early \<Rightarrow> (early, env)
      | Inr checked \<Rightarrow>
          (let decision = build_decision now checked;
               reply = Returned (json (JObj ((''ok'', JBool True) # decision)) 200)
           in (case APPROVALS env of
                 None \<Rightarrow> (reply, env)
               | Some kv \<Rightarrow>
                   (case store_decision (fst (snd checked)) (JObj decision) kv of
                      (Some e, kv') \<Rightarrow> (Threw e, env\<lparr>APPROVALS := Some kv'\<rparr>)
                    | (None, kv') \<Rightarrow> (reply, env\<lparr>APPROVALS := Some kv'\<rparr>)))))"

section \<open>The status relay: POST and GET /api/sync\<close>

text \<open>
  The block \<open>if (env.APPROVALS) { ... }\<close> of the relay's \<open>onRequestPost\<close>: when the namespace
  holds no \<open>pending\<close> text, \<open>statusData.pending_approvals || []\<close> is written under that key.
\<close>

definition seed_pending :: "json_value \<Rightarrow> env \<Rightarrow> exn + env" where
  "seed_pending statusData env =
     (case APPROVALS env of
        None \<Rightarrow> Inr env
      | Some kv \<Rightarrow>
          (case kv ''pending'' of
             Some pendingRaw \<Rightarrow> Inr env
           | None \<Rightarrow>
               (case get_prop statusData ''pending_approvals'' of
                  Inl e \<Rightarrow> Inl e
                | Inr v \<Rightarrow>
                    Inr (env\<lparr>APPROVALS := Some (kv(''pending'' \<mapsto> logical_or v (JArr [])))\<rparr>))))"

text \<open>
  The \<open>agents\<close> field of the response:
  \<open>statusData.summary ? statusData.summary.active_agents + " active" : "unknown"\<close>.
\<close>

definition agents_text :: "json_value \<Rightarrow> exn + string" where
  "agents_text statusData =
     (case get_prop statusData ''summary'' of
        Inl e \<Rightarrow> Inl e
      | Inr None \<Rightarrow> Inr ''unknown''
      | Inr (Some summary) \<Rightarrow>
          (if truthy (Some summary) then
             (case get_prop summary ''active_agents'' of
                Inl e \<Rightarrow> Inl e
              | Inr n \<Rightarrow> Inr (ToString_opt n @ '' active''))
           else Inr ''unknown''))"

text \<open>
  \<open>onRequestPost\<close> of the relay; \<open>now1\<close> and \<open>now2\<close> are what the two calls of
  \<open>new Date().toISOString()\<close> return (the time of \<open>last_sync\<close> and \<open>received_at\<close>).
\<close>

definition sync_onRequestPost :: "string \<Rightarrow> string \<Rightarrow> request \<Rightarrow> env \<Rightarrow> outcome \<times> env" where
  "sync_onRequestPost now1 now2 request env =
     (let authHeader = (case authorization request of
                          None \<Rightarrow> []
                        | Some h \<Rightarrow> h);
          token = replace ''Bearer '' [] authHeader
      in
      if SYNC_SECRET env = None \<or> SYNC_SECRET env = Some [] \<or> Some token \<noteq> SYNC_SECRET env then
        (Returned (json (JObj [(''error'', JStr ''Unauthorized'')]) 401), env)
      else case json_body request of
        None \<Rightarrow> (Returned (json (JObj [(''error'', JStr ''Invalid JSON'')]) 400), env)
      | Some statusData \<Rightarrow>
      (let env1 = (case DASHBOARD_DATA env of
                     None \<Rightarrow> env
                   | Some kv \<Rightarrow>
                       env\<lparr>DASHBOARD_DATA :=
                             Some (kv(''status'' \<mapsto> JSON_stringify statusData,
                                      ''last_sync'' \<mapsto> now1))\<rparr>)
       in case seed_pending statusData env1 of
            Inl e \<Rightarrow> (Threw e, env1)
          | Inr env2 \<Rightarrow>
              (case agents_text statusData of
                 Inl e \<Rightarrow> (Threw e, env2)
               | Inr agents \<Rightarrow>
                   (Returned
                      (json (JObj [(''ok'', JBool True),
                                   (''received_at'', JStr now2),
                                   (''agents'', JStr agents)]) 200),
                    env2))))"

text \<open>\<open>onRequestGet\<close> of the relay: the stored text of \<open>status\<close> as the body, or 404.\<close>

definition sync_onRequestGet :: "env \<Rightarrow> response" where
  "sync_onRequestGet env =
     (case (case DASHBOARD_DATA env of
              None \<Rightarrow> None
            | Some kv \<Rightarrow>
                (case kv ''status'' of
                   None \<Rightarrow> None
                 | Some data \<Rightarrow> if data \<noteq> [] then Some data else None)) of
        Some data \<Rightarrow>
          \<lparr>status = 200,
           headers = [(''Content-Type'', ''application/json''), (''Cache-Control'', ''no-store'')],
           body = data\<rparr>
      | None \<Rightarrow>
          json (JObj [(''error'', JStr ''No status data available. Waiting for first sync.'')])
            404)"

section \<open>Runs of calls and example inputs\<close>

text \<open>
  A run of \<open>POST /api/approve\<close> calls, one after the other on the same environment; a
  call is the time it is served at and its request. A call that returns early or throws
  leaves the environment as it is at that point.
\<close>

fun record_all :: "(string \<times> request) list \<Rightarrow> env \<Rightarrow> env" where
  "record_all [] env = env"
| "record_all ((now, request) # calls) env =
     record_all calls (snd (approve_onRequestPost now request env))"

text \<open>The decisions that the calls passing \<open>validate\<close> build, in the order of the calls.\<close>

definition decisions_of :: "(string \<times> request) list \<Rightarrow> json_value list" where
  "decisions_of calls =
     concat (map (\<lambda>(now, request).
                    case validate request of
                      Inl early \<Rightarrow> []
                    | Inr checked \<Rightarrow> [JObj (build_decision now checked)]) calls)"

text \<open>
  The history as \<open>GET /api/approve\<close> reads it: the empty array when the binding or the key
  is missing.
\<close>

definition stored_history :: "env \<Rightarrow> json_value" where
  "stored_history env = (case APPROVALS env of None \<Rightarrow> JArr [] | Some kv \<Rightarrow> read_history kv)"

text \<open>The pending queue is missing, or an array without \<open>null\<close> items.\<close>

definition pending_ok :: "(string \<rightharpoonup> json_value) \<Rightarrow> bool" where
  "pending_ok kv =
     (case kv ''pending'' of
        None \<Rightarrow> True
      | Some (JArr items) \<Rightarrow> JNull \<notin> set items
      | Some v \<Rightarrow> False)"

subsection \<open>Example inputs\<close>

text \<open>
  A request of the caller whose Access token names \<open>email\<close>, with the body \<open>payload\<close>; an
  environment with only the approvals namespace bound.
\<close>

definition approver_request :: "string \<Rightarrow> json_value \<Rightarrow> request" where
  "approver_request email payload =
     \<lparr>authorization = None,
      cf_payload = Some (JObj [(''email'', JStr email)]),
      json_body = Some payload\<rparr>"

definition ledger :: "(string \<rightharpoonup> json_value) \<Rightarrow> env" where
  "ledger kv = \<lparr>SYNC_SECRET = None, DASHBOARD_DATA = None, APPROVALS = Some kv\<rparr>"

text \<open>The \<open>n\<close>-th of a run of decisions on the ids 1, 2, 3, ..., and the decision it builds.\<close>

definition numbered_call :: "nat \<Rightarrow> string \<times> request" where
  "numbered_call n =
     (''T'', approver_request ''rinvest4@gmail.com''
               (JObj [(''id'', JNum (int n + 1)), (''action'', JStr ''approve'')]))"

definition numbered_decision :: "nat \<Rightarrow> json_value" where
  "numbered_decision n =
     JObj [(''id'', JNum (int n + 1)), (''action'', JStr ''approve''), (''note'', JStr []),
           (''by'', JStr ''rinvest4@gmail.com''), (''at'', JStr ''T'')]"

text \<open>
  A push of the agent that presents \<open>secret\<close> as its bearer token, an environment whose
  secret is \<open>s3cret\<close> with the two namespaces as given, and a snapshot with two pending
  items and three active agents.
\<close>

definition push_request :: "string \<Rightarrow> json_value \<Rightarrow> request" where
  "push_request secret payload =
     \<lparr>authorization = Some (''Bearer '' @ secret), cf_payload = None, json_body = Some payload\<rparr>"

definition relay :: "(string \<rightharpoonup> string) option \<Rightarrow> (string \<rightharpoonup> json_value) option \<Rightarrow> env" where
  "relay status_store approvals_store =
     \<lparr>SYNC_SECRET = Some ''s3cret'', DASHBOARD_DATA = status_store, APPROVALS = approvals_store\<rparr>"

definition snapshot_AB :: json_value where
  "snapshot_AB =
     JObj [(''pending_approvals'', JArr [JObj [(''id'', JStr ''A'')], JObj [(''id'', JStr ''B'')]]),
           (''summary'', JObj [(''active_agents'', JNum 3)])]"

section \<open>Properties of the built-ins\<close>

lemma decimal_not_empty: "decimal n \<noteq> []"
  by (induction n rule: decimal.induct) (subst decimal.simps, simp)

lemma Number_toString_not_empty: "Number_toString n \<noteq> []"
  by (simp add: Number_toString_def decimal_not_empty)

lemma JSON_stringify_not_empty: "JSON_stringify v \<noteq> []"
  by (cases v) (simp_all add: Number_toString_not_empty QuoteJSONString_def)


lemmas lower_char_eval = lower_char_def char_of_def bit_0

section \<open>Recording a decision\<close>

lemma filter_items_filter:
  "JNull \<notin> set items \<Longrightarrow>
   filter_items ident items = Inr (filter (\<lambda>item. keep_item ident item = Inr True) items)"
proof (induction items)
  case Nil
  then show ?case by simp
next
  case (Cons item items)
  then have "item \<noteq> JNull" by auto
  then obtain v where "get_prop item ''id'' = Inr v"
    by (cases item) simp_all
  with Cons show ?case by (simp add: keep_item_def)
qed

lemma filter_items_null:
  "JNull \<in> set items \<Longrightarrow> filter_items ident items = Inl TypeError"
proof (induction items)
  case Nil
  then show ?case by simp
next
  case (Cons item items)
  show ?case
  proof (cases "item = JNull")
    case True
    then show ?thesis by (simp add: keep_item_def)
  next
    case False
    then obtain v where "get_prop item ''id'' = Inr v"
      by (cases item) simp_all
    moreover from False Cons have "filter_items ident items = Inl TypeError" by simp
    ultimately show ?thesis by (simp add: keep_item_def)
  qed
qed

lemma keep_item_string:
  "(keep_item (Some (JStr s)) item = Inr True) =
   (item \<noteq> JNull \<and> get_prop item ''id'' \<noteq> Inr (Some (JStr s)))"
proof (cases "item = JNull")
  case True
  then show ?thesis by (simp add: keep_item_def)
next
  case False
  then obtain v where v: "get_prop item ''id'' = Inr v"
    by (cases item) simp_all
  have "strict_equals v (Some (JStr s)) = (v = Some (JStr s))"
    by (cases "(v, Some (JStr s))" rule: strict_equals.cases) auto
  with False v show ?thesis by (simp add: keep_item_def)
qed


lemma decision_key_not_pending: "''decision:'' @ s \<noteq> ''pending''"
  by simp

lemma decision_key_not_history: "''decision:'' @ s \<noteq> ''history''"
  by simp

lemma validate_accepts:
  "(validate request = Inr (email, ident, action, note)) =
   (getAuthenticatedEmail request = email \<and>
    (\<exists>s. email = JStr s \<and> map lower_char s \<in> set ALLOWED_APPROVERS) \<and>
    (\<exists>payload. json_body request = Some payload \<and>
       get_prop payload ''id'' = Inr ident \<and>
       get_prop payload ''action'' = Inr action \<and>
       get_prop payload ''note'' = Inr note) \<and>
    truthy ident \<and>
    (action = Some (JStr ''approve'') \<or> action = Some (JStr ''reject'')))"
  apply (cases "getAuthenticatedEmail request")
  apply (auto simp add: validate_def Let_def ALLOWED_APPROVERS_def split: sum.splits option.splits)
  done

lemma store_decision_array:
  assumes "kv ''pending'' = Some (JArr items)" and "JNull \<notin> set items"
    and "read_history kv = JArr entries"
  shows "store_decision ident d kv =
    (None, kv(''decision:'' @ ToString_opt ident \<mapsto> d,
              ''pending'' \<mapsto> JArr (filter (\<lambda>item. keep_item ident item = Inr True) items),
              ''history'' \<mapsto> JArr (take 100 (d # entries))))"
  using assms
  by (simp add: store_decision_def Let_def read_history_def filter_items_filter
      split: option.splits)

lemma store_decision_no_pending:
  assumes "kv ''pending'' = None" and "read_history kv = JArr entries"
  shows "store_decision ident d kv =
    (None, kv(''decision:'' @ ToString_opt ident \<mapsto> d,
              ''history'' \<mapsto> JArr (take 100 (d # entries))))"
  using assms
  by (simp add: store_decision_def Let_def read_history_def split: option.splits)

text \<open>
  C1. A decision with a configured store removes from the pending queue every item that
  the callback \<open>item.id !== id\<close> does not keep (for a string id: every item whose id is that
  string, \<open>keep_item_string\<close>), writes the filtered array back in the order it had, stores
  the decision under its own key and makes it the first entry of the history, which is cut
  to 100 entries. The decision is \<open>{id, action, note or "", by, at}\<close> with the caller's email
  and the time of the call.
\<close>

theorem record_decision_removes_and_prepends:
  assumes "validate request = Inr (email, Some i, Some a, note)"
    and "APPROVALS env = Some kv"
    and "kv ''pending'' = Some (JArr items)"
    and "JNull \<notin> set items"
    and "read_history kv = JArr entries"
  shows "approve_onRequestPost now request env =
    (let decision = JObj [(''id'', i), (''action'', a), (''note'', logical_or note (JStr [])),
                          (''by'', email), (''at'', JStr now)]
     in (Returned
           (json (JObj [(''ok'', JBool True), (''id'', i), (''action'', a),
                        (''note'', logical_or note (JStr [])), (''by'', email),
                        (''at'', JStr now)]) 200),
         env\<lparr>APPROVALS := Some
           (kv(''decision:'' @ ToString i \<mapsto> decision,
               ''pending'' \<mapsto> JArr (filter (\<lambda>item. keep_item (Some i) item = Inr True) items),
               ''history'' \<mapsto> JArr (decision # take 99 entries)))\<rparr>))"
  using assms
  by (simp add: approve_onRequestPost_def build_decision_def store_decision_array Let_def)

text \<open>With pending \<open>[A, B]\<close>, deciding \<open>A\<close> leaves pending \<open>[B]\<close> and history \<open>[decision]\<close>.\<close>

theorem record_decision_removes_and_prepends_witness:
  "approve_onRequestPost ''T''
     (approver_request ''Rinvest4@Gmail.com''
        (JObj [(''id'', JStr ''A''), (''action'', JStr ''approve'')]))
     (ledger [''pending'' \<mapsto> JArr [JObj [(''id'', JStr ''A'')], JObj [(''id'', JStr ''B'')]]])
   = (Returned
        (json (JObj [(''ok'', JBool True), (''id'', JStr ''A''), (''action'', JStr ''approve''),
                     (''note'', JStr []), (''by'', JStr ''Rinvest4@Gmail.com''),
                     (''at'', JStr ''T'')]) 200),
      ledger [''decision:A'' \<mapsto>
                JObj [(''id'', JStr ''A''), (''action'', JStr ''approve''), (''note'', JStr []),
                      (''by'', JStr ''Rinvest4@Gmail.com''), (''at'', JStr ''T'')],
              ''pending'' \<mapsto> JArr [JObj [(''id'', JStr ''B'')]],
              ''history'' \<mapsto>
                JArr [JObj [(''id'', JStr ''A''), (''action'', JStr ''approve''),
                            (''note'', JStr []), (''by'', JStr ''Rinvest4@Gmail.com''),
                            (''at'', JStr ''T'')]]])"
proof -
  let ?request = "approver_request ''Rinvest4@Gmail.com''
        (JObj [(''id'', JStr ''A''), (''action'', JStr ''approve'')])"
  let ?items = "[JObj [(''id'', JStr ''A'')], JObj [(''id'', JStr ''B'')]]"
  let ?kv = "[''pending'' \<mapsto> JArr ?items]"
  have a: "validate ?request =
      Inr (JStr ''Rinvest4@Gmail.com'', Some (JStr ''A''), Some (JStr ''approve''), None)"
    unfolding validate_accepts
    by (simp add: approver_request_def getAuthenticatedEmail_def lower_char_eval
        ALLOWED_APPROVERS_def)
  have b: "APPROVALS (ledger ?kv) = Some ?kv" by (simp add: ledger_def)
  have c: "?kv ''pending'' = Some (JArr ?items)" by simp
  have d: "JNull \<notin> set ?items" by simp
  have e: "read_history ?kv = JArr []" by (simp add: read_history_def)
  show ?thesis
    using record_decision_removes_and_prepends [OF a b c d e, of "''T''"]
    by (simp add: keep_item_string ledger_def Let_def)
qed

section \<open>The history over a run of decisions\<close>

lemma store_decision_history:
  assumes "read_history kv = JArr h"
  shows "read_history (snd (store_decision ident d kv)) = JArr h \<or>
         read_history (snd (store_decision ident d kv)) = JArr (take 100 (d # h))"
  using assms
  by (auto simp add: store_decision_def Let_def read_history_def
      split: option.splits sum.splits)

lemma store_decision_ok:
  assumes "pending_ok kv" and "read_history kv = JArr h"
  shows "\<exists>kv'. store_decision ident d kv = (None, kv') \<and> pending_ok kv' \<and>
           read_history kv' = JArr (take 100 (d # h))"
proof (cases "kv ''pending''")
  case None
  with assms show ?thesis
    by (simp add: store_decision_no_pending pending_ok_def read_history_def)
next
  case (Some p)
  with assms(1) obtain items where p: "p = JArr items" and nn: "JNull \<notin> set items"
    by (cases p) (simp_all add: pending_ok_def)
  from Some p nn assms(2) show ?thesis
    by (simp add: store_decision_array pending_ok_def read_history_def)
qed

lemma approve_step_bound:
  assumes "APPROVALS env = Some kv" and "read_history kv = JArr h" and "length h \<le> 100"
  shows "\<exists>kv' h'. APPROVALS (snd (approve_onRequestPost now request env)) = Some kv' \<and>
           read_history kv' = JArr h' \<and> length h' \<le> 100"
proof (cases "validate request")
  case (Inl early)
  with assms show ?thesis by (simp add: approve_onRequestPost_def)
next
  case (Inr checked)
  define d where "d = JObj (build_decision now checked)"
  obtain e kv' where s: "store_decision (fst (snd checked)) d kv = (e, kv')"
    by (cases "store_decision (fst (snd checked)) d kv")
  from store_decision_history [OF assms(2), of "fst (snd checked)" d] s
  have "read_history kv' = JArr h \<or> read_history kv' = JArr (take 100 (d # h))" by simp
  then have "\<exists>h'. read_history kv' = JArr h' \<and> length h' \<le> 100"
    using assms(3) by auto
  moreover have "APPROVALS (snd (approve_onRequestPost now request env)) = Some kv'"
    using Inr assms(1) s
    by (cases e) (simp_all add: approve_onRequestPost_def Let_def d_def)
  ultimately show ?thesis by blast
qed

lemma approve_step_exact:
  assumes "APPROVALS env = Some kv" and "pending_ok kv" and "read_history kv = JArr h"
    and "length h \<le> 100"
  shows "\<exists>kv'. APPROVALS (snd (approve_onRequestPost now request env)) = Some kv' \<and>
           pending_ok kv' \<and>
           read_history kv' = JArr (take 100 (rev (decisions_of [(now, request)]) @ h))"
proof (cases "validate request")
  case (Inl early)
  with assms show ?thesis
    by (simp add: approve_onRequestPost_def decisions_of_def)
next
  case (Inr checked)
  define d where "d = JObj (build_decision now checked)"
  from store_decision_ok [OF assms(2,3), of "fst (snd checked)" d]
  obtain kv' where "store_decision (fst (snd checked)) d kv = (None, kv')"
    and "pending_ok kv'" and "read_history kv' = JArr (take 100 (d # h))"
    by blast
  with Inr assms(1) show ?thesis
    by (simp add: approve_onRequestPost_def Let_def d_def decisions_of_def)
qed

lemma take_append_take: "take n (xs @ take n ys) = take n (xs @ ys)"
  by (simp add: min_def)

lemma decisions_of_Cons: "decisions_of (c # cs) = decisions_of [c] @ decisions_of cs"
  by (simp add: decisions_of_def)

lemma record_all_bound:
  assumes "APPROVALS env = Some kv" and "read_history kv = JArr h" and "length h \<le> 100"
  shows "\<exists>kv' h'. APPROVALS (record_all calls env) = Some kv' \<and>
           read_history kv' = JArr h' \<and> length h' \<le> 100"
  using assms
proof (induction calls arbitrary: env kv h)
  case Nil
  then show ?case by simp
next
  case (Cons c calls)
  obtain now request where c: "c = (now, request)" by (cases c)
  from approve_step_bound [OF Cons.prems, of now request]
  obtain kv1 h1 where "APPROVALS (snd (approve_onRequestPost now request env)) = Some kv1"
    and "read_history kv1 = JArr h1" and "length h1 \<le> 100"
    by blast
  from Cons.IH [OF this] show ?case by (simp add: c)
qed

lemma record_all_exact:
  assumes "APPROVALS env = Some kv" and "pending_ok kv" and "read_history kv = JArr h"
    and "length h \<le> 100"
  shows "\<exists>kv'. APPROVALS (record_all calls env) = Some kv' \<and> pending_ok kv' \<and>
           read_history kv' = JArr (take 100 (rev (decisions_of calls) @ h))"
  using assms
proof (induction calls arbitrary: env kv h)
  case Nil
  then show ?case by (simp add: decisions_of_def)
next
  case (Cons c calls)
  obtain now request where c: "c = (now, request)" by (cases c)
  define h1 where "h1 = take 100 (rev (decisions_of [(now, request)]) @ h)"
  from approve_step_exact [OF Cons.prems, of now request]
  obtain kv1 where 1: "APPROVALS (snd (approve_onRequestPost now request env)) = Some kv1"
    and 2: "pending_ok kv1" and 3: "read_history kv1 = JArr h1"
    unfolding h1_def by blast
  have 4: "length h1 \<le> 100" by (simp add: h1_def)
  from Cons.IH [OF 1 2 3 4]
  obtain kv' where "APPROVALS (record_all calls (snd (approve_onRequestPost now request env))) = Some kv'"
    and "pending_ok kv'"
    and "read_history kv' = JArr (take 100 (rev (decisions_of calls) @ h1))"
    by blast
  moreover have "take 100 (rev (decisions_of calls) @ h1) =
      take 100 (rev (decisions_of (c # calls)) @ h)"
  proof -
    have "take 100 (rev (decisions_of calls) @ h1) =
        take 100 (rev (decisions_of calls) @ rev (decisions_of [c]) @ h)"
      unfolding h1_def c by (rule take_append_take)
    also have "rev (decisions_of calls) @ rev (decisions_of [c]) @ h =
        rev (decisions_of (c # calls)) @ h"
      by (subst decisions_of_Cons [of c calls]) simp
    finally show ?thesis .
  qed
  ultimately show ?case by (simp add: c)
qed

text \<open>
  C2. From a history of at most 100 entries, after any run of calls the stored history has
  at most 100 entries. When the pending queue is well formed (so that no call throws
  before the history is written), the history is the decisions of the run, the newest
  first, followed by the entries it started with, cut to 100; once the run has built 100
  decisions or more, it is exactly the last 100 of them, the newest first.
\<close>

theorem history_bounded_newest_first:
  assumes "APPROVALS env = Some kv" and "read_history kv = JArr h" and "length h \<le> 100"
  shows "(\<exists>h'. stored_history (record_all calls env) = JArr h' \<and> length h' \<le> 100) \<and>
    (pending_ok kv \<longrightarrow>
       stored_history (record_all calls env) = JArr (take 100 (rev (decisions_of calls) @ h)) \<and>
       (100 \<le> length (decisions_of calls) \<longrightarrow>
          stored_history (record_all calls env) =
            JArr (rev (drop (length (decisions_of calls) - 100) (decisions_of calls)))))"
proof (intro conjI impI)
  from record_all_bound [OF assms, of calls]
  show "\<exists>h'. stored_history (record_all calls env) = JArr h' \<and> length h' \<le> 100"
    by (auto simp add: stored_history_def)
next
  assume "pending_ok kv"
  from record_all_exact [OF assms(1) this assms(2,3), of calls]
  show e: "stored_history (record_all calls env) =
      JArr (take 100 (rev (decisions_of calls) @ h))"
    by (auto simp add: stored_history_def)
  assume "100 \<le> length (decisions_of calls)"
  then have "take 100 (rev (decisions_of calls) @ h) =
      rev (drop (length (decisions_of calls) - 100) (decisions_of calls))"
    by (simp add: take_rev)
  with e show "stored_history (record_all calls env) =
      JArr (rev (drop (length (decisions_of calls) - 100) (decisions_of calls)))"
    by simp
qed

text \<open>
  101 decisions on the ids 1 to 101, on an empty store: the history holds the 100 decisions
  on the ids 101 down to 2.
\<close>

lemma validate_numbered:
  "validate (snd (numbered_call n)) =
     Inr (JStr ''rinvest4@gmail.com'', Some (JNum (int n + 1)), Some (JStr ''approve''), None)"
  unfolding validate_accepts
  by (simp add: numbered_call_def approver_request_def getAuthenticatedEmail_def
      lower_char_eval ALLOWED_APPROVERS_def)

lemma decisions_of_numbered:
  "decisions_of (map numbered_call ns) = map numbered_decision ns"
proof (induction ns)
  case Nil
  show ?case by (simp add: decisions_of_def)
next
  case (Cons n ns)
  have "decisions_of [numbered_call n] = [numbered_decision n]"
    using validate_numbered [of n]
    by (simp add: decisions_of_def numbered_call_def numbered_decision_def build_decision_def
        split: prod.splits)
  with Cons show ?case
    by (simp add: decisions_of_Cons [of "numbered_call n" "map numbered_call ns"])
qed

theorem history_bounded_newest_first_witness:
  "stored_history (record_all (map numbered_call [0..<101]) (ledger Map.empty)) =
     JArr (rev (map numbered_decision [1..<101])) \<and>
   length (rev (map numbered_decision [1..<101])) = 100"
proof -
  have a: "APPROVALS (ledger Map.empty) = Some Map.empty" by (simp add: ledger_def)
  have b: "read_history Map.empty = JArr []" by (simp add: read_history_def)
  have c: "length ([] :: json_value list) \<le> 100" by simp
  have d: "pending_ok Map.empty" by (simp add: pending_ok_def)
  have e: "100 \<le> length (decisions_of (map numbered_call [0..<101]))"
    by (simp add: decisions_of_numbered)
  have f: "drop (length (decisions_of (map numbered_call [0..<101])) - 100)
             (decisions_of (map numbered_call [0..<101])) = map numbered_decision [1..<101]"
    by (simp add: decisions_of_numbered drop_map)
  from history_bounded_newest_first [OF a b c, of "map numbered_call [0..<101]"] d e
  have "stored_history (record_all (map numbered_call [0..<101]) (ledger Map.empty)) =
      JArr (rev (drop (length (decisions_of (map numbered_call [0..<101])) - 100)
                   (decisions_of (map numbered_call [0..<101]))))"
    by blast
  then show ?thesis unfolding f by simp
qed

section \<open>Decisions on ids outside the queue, without a queue, without a store\<close>

lemma validate_example:
  "validate (approver_request ''Rinvest4@Gmail.com''
       (JObj [(''id'', JStr ''A''), (''action'', JStr ''approve'')])) =
     Inr (JStr ''Rinvest4@Gmail.com'', Some (JStr ''A''), Some (JStr ''approve''), None)"
  unfolding validate_accepts
  by (simp add: approver_request_def getAuthenticatedEmail_def lower_char_eval
      ALLOWED_APPROVERS_def)





text \<open>
  C9. With the approvals namespace bound and no \<open>pending\<close> key in it, a decision leaves the
  key absent (no empty queue is written), stores the decision under its own key and makes
  it the first entry of the history.
\<close>

theorem record_decision_no_pending_key:
  assumes "validate request = Inr (email, Some i, Some a, note)"
    and "APPROVALS env = Some kv"
    and "kv ''pending'' = None"
    and "read_history kv = JArr entries"
  shows "let decision = JObj [(''id'', i), (''action'', a), (''note'', logical_or note (JStr [])),
                              (''by'', email), (''at'', JStr now)];
             kv' = kv(''decision:'' @ ToString i \<mapsto> decision,
                      ''history'' \<mapsto> JArr (decision # take 99 entries))
         in approve_onRequestPost now request env =
              (Returned
                 (json (JObj [(''ok'', JBool True), (''id'', i), (''action'', a),
                              (''note'', logical_or note (JStr [])), (''by'', email),
                              (''at'', JStr now)]) 200),
               env\<lparr>APPROVALS := Some kv'\<rparr>) \<and>
            kv' ''pending'' = None \<and>
            kv' (''decision:'' @ ToString i) = Some decision \<and>
            kv' ''history'' = Some (JArr (decision # take 99 entries))"
  using assms
  by (simp add: approve_onRequestPost_def build_decision_def store_decision_no_pending Let_def)

theorem record_decision_no_pending_key_witness:
  "approve_onRequestPost ''T''
     (approver_request ''Rinvest4@Gmail.com''
        (JObj [(''id'', JStr ''A''), (''action'', JStr ''approve'')]))
     (ledger Map.empty)
   = (Returned
        (json (JObj [(''ok'', JBool True), (''id'', JStr ''A''), (''action'', JStr ''approve''),
                     (''note'', JStr []), (''by'', JStr ''Rinvest4@Gmail.com''),
                     (''at'', JStr ''T'')]) 200),
      ledger [''decision:A'' \<mapsto>
                JObj [(''id'', JStr ''A''), (''action'', JStr ''approve''), (''note'', JStr []),
                      (''by'', JStr ''Rinvest4@Gmail.com''), (''at'', JStr ''T'')],
              ''history'' \<mapsto>
                JArr [JObj [(''id'', JStr ''A''), (''action'', JStr ''approve''),
                            (''note'', JStr []), (''by'', JStr ''Rinvest4@Gmail.com''),
                            (''at'', JStr ''T'')]]]) \<and>
     [''decision:A'' \<mapsto>
                JObj [(''id'', JStr ''A''), (''action'', JStr ''approve''), (''note'', JStr []),
                      (''by'', JStr ''Rinvest4@Gmail.com''), (''at'', JStr ''T'')],
              ''history'' \<mapsto>
                JArr [JObj [(''id'', JStr ''A''), (''action'', JStr ''approve''),
                            (''note'', JStr []), (''by'', JStr ''Rinvest4@Gmail.com''),
                            (''at'', JStr ''T'')]]] ''pending'' = None"
proof -
  have b: "APPROVALS (ledger Map.empty) = Some Map.empty" by (simp add: ledger_def)
  have c: "(Map.empty :: string \<rightharpoonup> json_value) ''pending'' = None" by simp
  have e: "read_history Map.empty = JArr []" by (simp add: read_history_def)
  show ?thesis
    using record_decision_no_pending_key [OF validate_example b c e, of "''T''"]
    by (simp add: ledger_def Let_def)
qed

section \<open>The order of the checks\<close>

text \<open>The two failures with status 400 differ in their bodies.\<close>

lemma failures_distinct:
  "json (JObj [(''error'', JStr ''Missing required fields: id, action'')]) 400 \<noteq>
   json (JObj [(''error'', JStr invalid_action_message)]) 400"
  by (simp add: json_def QuoteJSONString_def quote_char_def invalid_action_message_def)

text \<open>
  What \<open>getAuthenticatedEmail\<close> returns is \<open>null\<close> or truthy. A truthy identity that is
  not a string, and the body \<open>null\<close> from a caller on the allow-list, make the handler throw
  instead of answering; the order of the checks below is stated for the other requests.
\<close>

lemma getAuthenticatedEmail_range:
  "getAuthenticatedEmail request = JNull \<or> truthy (Some (getAuthenticatedEmail request))"
proof (cases "cf_payload request")
  case None
  then show ?thesis by (simp add: getAuthenticatedEmail_def)
next
  case (Some payload)
  show ?thesis
  proof (cases "get_prop payload ''email''")
    case (Inl e)
    with Some show ?thesis by (simp add: getAuthenticatedEmail_def)
  next
    case (Inr v)
    with Some show ?thesis by (cases v) (simp_all add: getAuthenticatedEmail_def)
  qed
qed

lemma validate_throws:
  "(truthy (Some (getAuthenticatedEmail request)) \<and>
    (\<forall>e. getAuthenticatedEmail request \<noteq> JStr e) \<longrightarrow>
      validate request = Inl (Threw TypeError)) \<and>
   (getAuthenticatedEmail request = JStr s \<and> map lower_char s \<in> set ALLOWED_APPROVERS \<and>
    json_body request = Some JNull \<longrightarrow>
      validate request = Inl (Threw TypeError))"
proof (intro conjI impI)
  assume "truthy (Some (getAuthenticatedEmail request)) \<and>
    (\<forall>e. getAuthenticatedEmail request \<noteq> JStr e)"
  then show "validate request = Inl (Threw TypeError)"
    by (cases "getAuthenticatedEmail request") (simp_all add: validate_def)
next
  assume a: "getAuthenticatedEmail request = JStr s \<and>
    map lower_char s \<in> set ALLOWED_APPROVERS \<and> json_body request = Some JNull"
  then have "s \<noteq> []" by (auto simp add: ALLOWED_APPROVERS_def)
  with a show "validate request = Inl (Threw TypeError)"
    by (simp add: validate_def)
qed

text \<open>
  C4, as the source orders the checks. The caller's identity comes first (401 when the token
  gives no email), then the allow-list on the lowercased email (403), then the body (400
  when it does not parse), then the presence of \<open>id\<close> and \<open>action\<close> (400), then the value
  of \<open>action\<close> (400). Each failure is decided by the first check that fails, whatever the
  later ones would say, and leaves the environment as it was. The responses of the
  allow-list, the missing-field and the invalid-action failure are pairwise different.
  Every request whose identity is absent or a string and whose body is not \<open>null\<close> meets
  one of the five failures or passes all the checks.
\<close>

theorem checks_in_source_order:
  "(\<not> truthy (Some (getAuthenticatedEmail request)) \<longrightarrow>
      approve_onRequestPost now request env =
        (Returned (json (JObj [(''error'', JStr ''Unauthorized'')]) 401), env)) \<and>
   (getAuthenticatedEmail request = JStr s \<and> s \<noteq> [] \<and>
    map lower_char s \<notin> set ALLOWED_APPROVERS \<longrightarrow>
      approve_onRequestPost now request env =
        (Returned (json (JObj [(''error'', JStr forbidden_message)]) 403), env)) \<and>
   (getAuthenticatedEmail request = JStr s \<and> map lower_char s \<in> set ALLOWED_APPROVERS \<and>
    json_body request = None \<longrightarrow>
      approve_onRequestPost now request env =
        (Returned (json (JObj [(''error'', JStr ''Invalid JSON body'')]) 400), env)) \<and>
   (getAuthenticatedEmail request = JStr s \<and> map lower_char s \<in> set ALLOWED_APPROVERS \<and>
    json_body request = Some payload \<and>
    get_prop payload ''id'' = Inr ident \<and> get_prop payload ''action'' = Inr action \<and>
    (\<not> truthy ident \<or> \<not> truthy action) \<longrightarrow>
      approve_onRequestPost now request env =
        (Returned (json (JObj [(''error'', JStr ''Missing required fields: id, action'')]) 400),
         env)) \<and>
   (getAuthenticatedEmail request = JStr s \<and> map lower_char s \<in> set ALLOWED_APPROVERS \<and>
    json_body request = Some payload \<and>
    get_prop payload ''id'' = Inr ident \<and> get_prop payload ''action'' = Inr action \<and>
    truthy ident \<and> truthy action \<and>
    action \<noteq> Some (JStr ''approve'') \<and> action \<noteq> Some (JStr ''reject'') \<longrightarrow>
      approve_onRequestPost now request env =
        (Returned (json (JObj [(''error'', JStr invalid_action_message)]) 400), env)) \<and>
   json (JObj [(''error'', JStr forbidden_message)]) 403 \<noteq>
     json (JObj [(''error'', JStr ''Missing required fields: id, action'')]) 400 \<and>
   json (JObj [(''error'', JStr forbidden_message)]) 403 \<noteq>
     json (JObj [(''error'', JStr invalid_action_message)]) 400 \<and>
   json (JObj [(''error'', JStr ''Missing required fields: id, action'')]) 400 \<noteq>
     json (JObj [(''error'', JStr invalid_action_message)]) 400 \<and>
   ((getAuthenticatedEmail request = JNull \<or> (\<exists>e. getAuthenticatedEmail request = JStr e)) \<and>
    json_body request \<noteq> Some JNull \<longrightarrow>
      getAuthenticatedEmail request = JNull \<or>
      (\<exists>e. getAuthenticatedEmail request = JStr e \<and> e \<noteq> [] \<and>
           map lower_char e \<notin> set ALLOWED_APPROVERS) \<or>
      (\<exists>e. getAuthenticatedEmail request = JStr e \<and>
           map lower_char e \<in> set ALLOWED_APPROVERS \<and> json_body request = None) \<or>
      (\<exists>e body i a.
           getAuthenticatedEmail request = JStr e \<and>
           map lower_char e \<in> set ALLOWED_APPROVERS \<and> json_body request = Some body \<and>
           get_prop body ''id'' = Inr i \<and> get_prop body ''action'' = Inr a \<and>
           (\<not> truthy i \<or> \<not> truthy a)) \<or>
      (\<exists>e body i a.
           getAuthenticatedEmail request = JStr e \<and>
           map lower_char e \<in> set ALLOWED_APPROVERS \<and> json_body request = Some body \<and>
           get_prop body ''id'' = Inr i \<and> get_prop body ''action'' = Inr a \<and>
           truthy i \<and> truthy a \<and>
           a \<noteq> Some (JStr ''approve'') \<and> a \<noteq> Some (JStr ''reject'')) \<or>
      (\<exists>checked. validate request = Inr checked))"
proof (intro conjI impI)
  assume "\<not> truthy (Some (getAuthenticatedEmail request))"
  then show "approve_onRequestPost now request env =
        (Returned (json (JObj [(''error'', JStr ''Unauthorized'')]) 401), env)"
    by (simp add: approve_onRequestPost_def validate_def)
next
  assume "getAuthenticatedEmail request = JStr s \<and> s \<noteq> [] \<and>
    map lower_char s \<notin> set ALLOWED_APPROVERS"
  then show "approve_onRequestPost now request env =
        (Returned (json (JObj [(''error'', JStr forbidden_message)]) 403), env)"
    by (simp add: approve_onRequestPost_def validate_def)
next
  assume a: "getAuthenticatedEmail request = JStr s \<and>
    map lower_char s \<in> set ALLOWED_APPROVERS \<and> json_body request = None"
  then have "s \<noteq> []" by (auto simp add: ALLOWED_APPROVERS_def)
  with a show "approve_onRequestPost now request env =
        (Returned (json (JObj [(''error'', JStr ''Invalid JSON body'')]) 400), env)"
    by (simp add: approve_onRequestPost_def validate_def)
next
  assume a: "getAuthenticatedEmail request = JStr s \<and>
    map lower_char s \<in> set ALLOWED_APPROVERS \<and>
    json_body request = Some payload \<and>
    get_prop payload ''id'' = Inr ident \<and> get_prop payload ''action'' = Inr action \<and>
    (\<not> truthy ident \<or> \<not> truthy action)"
  then have s: "s \<noteq> []" by (auto simp add: ALLOWED_APPROVERS_def)
  from a have "payload \<noteq> JNull" by auto
  then obtain nt where "get_prop payload ''note'' = Inr nt"
    by (cases payload) simp_all
  with a s show "approve_onRequestPost now request env =
        (Returned (json (JObj [(''error'', JStr ''Missing required fields: id, action'')]) 400),
         env)"
    by (simp add: approve_onRequestPost_def validate_def)
next
  assume a: "getAuthenticatedEmail request = JStr s \<and>
    map lower_char s \<in> set ALLOWED_APPROVERS \<and>
    json_body request = Some payload \<and>
    get_prop payload ''id'' = Inr ident \<and> get_prop payload ''action'' = Inr action \<and>
    truthy ident \<and> truthy action \<and>
    action \<noteq> Some (JStr ''approve'') \<and> action \<noteq> Some (JStr ''reject'')"
  then have s: "s \<noteq> []" by (auto simp add: ALLOWED_APPROVERS_def)
  from a have "payload \<noteq> JNull" by auto
  then obtain nt where "get_prop payload ''note'' = Inr nt"
    by (cases payload) simp_all
  with a s show "approve_onRequestPost now request env =
        (Returned (json (JObj [(''error'', JStr invalid_action_message)]) 400), env)"
    by (simp add: approve_onRequestPost_def validate_def)
next
  show "json (JObj [(''error'', JStr forbidden_message)]) 403 \<noteq>
      json (JObj [(''error'', JStr ''Missing required fields: id, action'')]) 400"
    by (simp add: json_def)
next
  show "json (JObj [(''error'', JStr forbidden_message)]) 403 \<noteq>
      json (JObj [(''error'', JStr invalid_action_message)]) 400"
    by (simp add: json_def)
next
  show "json (JObj [(''error'', JStr ''Missing required fields: id, action'')]) 400 \<noteq>
      json (JObj [(''error'', JStr invalid_action_message)]) 400"
    by (rule failures_distinct)
next
  assume scope: "(getAuthenticatedEmail request = JNull \<or>
      (\<exists>e. getAuthenticatedEmail request = JStr e)) \<and>
    json_body request \<noteq> Some JNull"
  show "getAuthenticatedEmail request = JNull \<or>
      (\<exists>e. getAuthenticatedEmail request = JStr e \<and> e \<noteq> [] \<and>
           map lower_char e \<notin> set ALLOWED_APPROVERS) \<or>
      (\<exists>e. getAuthenticatedEmail request = JStr e \<and>
           map lower_char e \<in> set ALLOWED_APPROVERS \<and> json_body request = None) \<or>
      (\<exists>e body i a.
           getAuthenticatedEmail request = JStr e \<and>
           map lower_char e \<in> set ALLOWED_APPROVERS \<and> json_body request = Some body \<and>
           get_prop body ''id'' = Inr i \<and> get_prop body ''action'' = Inr a \<and>
           (\<not> truthy i \<or> \<not> truthy a)) \<or>
      (\<exists>e body i a.
           getAuthenticatedEmail request = JStr e \<and>
           map lower_char e \<in> set ALLOWED_APPROVERS \<and> json_body request = Some body \<and>
           get_prop body ''id'' = Inr i \<and> get_prop body ''action'' = Inr a \<and>
           truthy i \<and> truthy a \<and>
           a \<noteq> Some (JStr ''approve'') \<and> a \<noteq> Some (JStr ''reject'')) \<or>
      (\<exists>checked. validate request = Inr checked)"
  proof (cases "getAuthenticatedEmail request = JNull")
    case True
    then show ?thesis by simp
  next
    case False
    with scope obtain e where e: "getAuthenticatedEmail request = JStr e" by blast
    from getAuthenticatedEmail_range [of request] False e have ne: "e \<noteq> []" by simp
    show ?thesis
    proof (cases "map lower_char e \<in> set ALLOWED_APPROVERS")
      case False
      with e ne show ?thesis by blast
    next
      case allowed: True
      show ?thesis
      proof (cases "json_body request")
        case None
        with e allowed show ?thesis by blast
      next
        case (Some body)
        with scope have "body \<noteq> JNull" by auto
        then obtain i a nt where props: "get_prop body ''id'' = Inr i"
          "get_prop body ''action'' = Inr a" "get_prop body ''note'' = Inr nt"
          by (cases body) simp_all
        show ?thesis
        proof (cases "truthy i \<and> truthy a")
          case False
          with e allowed Some props show ?thesis by blast
        next
          case both: True
          show ?thesis
          proof (cases "a = Some (JStr ''approve'') \<or> a = Some (JStr ''reject'')")
            case False
            with both e allowed Some props show ?thesis by blast
          next
            case True
            with both e allowed Some props
            have "validate request = Inr (JStr e, i, a, nt)"
              unfolding validate_accepts by simp
            then show ?thesis by blast
          qed
        qed
      qed
    qed
  qed
qed

theorem checks_in_source_order_witness:
  "approve_onRequestPost ''T''
     \<lparr>authorization = None, cf_payload = None, json_body = Some (JObj [])\<rparr> (ledger Map.empty) =
     (Returned (json (JObj [(''error'', JStr ''Unauthorized'')]) 401), ledger Map.empty) \<and>
   approve_onRequestPost ''T''
     (approver_request ''mallory@example.com'' (JObj [(''action'', JStr ''bogus'')]))
     (ledger Map.empty) =
     (Returned (json (JObj [(''error'', JStr forbidden_message)]) 403), ledger Map.empty) \<and>
   approve_onRequestPost ''T''
     ((approver_request ''Rinvest4@Gmail.com'' JNull)\<lparr>json_body := None\<rparr>)
     (ledger Map.empty) =
     (Returned (json (JObj [(''error'', JStr ''Invalid JSON body'')]) 400), ledger Map.empty) \<and>
   approve_onRequestPost ''T''
     (approver_request ''Rinvest4@Gmail.com'' (JObj [(''action'', JStr ''bogus'')]))
     (ledger Map.empty) =
     (Returned (json (JObj [(''error'', JStr ''Missing required fields: id, action'')]) 400),
      ledger Map.empty) \<and>
   approve_onRequestPost ''T''
     (approver_request ''Rinvest4@Gmail.com''
        (JObj [(''id'', JStr ''A''), (''action'', JStr ''bogus'')]))
     (ledger Map.empty) =
     (Returned (json (JObj [(''error'', JStr invalid_action_message)]) 400), ledger Map.empty) \<and>
   (\<exists>checked.
      validate (approver_request ''Rinvest4@Gmail.com''
                  (JObj [(''id'', JStr ''A''), (''action'', JStr ''approve'')])) = Inr checked)"
proof (intro conjI)
  let ?env = "ledger Map.empty"
  let ?anonymous = "\<lparr>authorization = None, cf_payload = None, json_body = Some (JObj [])\<rparr>"
  have "\<not> truthy (Some (getAuthenticatedEmail ?anonymous))"
    by (simp add: getAuthenticatedEmail_def)
  with checks_in_source_order [of ?anonymous "''T''" ?env]
  show "approve_onRequestPost ''T'' ?anonymous ?env =
      (Returned (json (JObj [(''error'', JStr ''Unauthorized'')]) 401), ?env)"
    by blast
next
  let ?env = "ledger Map.empty"
  let ?request = "approver_request ''mallory@example.com'' (JObj [(''action'', JStr ''bogus'')])"
  have "getAuthenticatedEmail ?request = JStr ''mallory@example.com'' \<and>
      ''mallory@example.com'' \<noteq> [] \<and>
      map lower_char ''mallory@example.com'' \<notin> set ALLOWED_APPROVERS"
    by (simp add: approver_request_def getAuthenticatedEmail_def lower_char_eval
        ALLOWED_APPROVERS_def)
  with checks_in_source_order [of ?request "''T''" ?env "''mallory@example.com''"]
  show "approve_onRequestPost ''T'' ?request ?env =
      (Returned (json (JObj [(''error'', JStr forbidden_message)]) 403), ?env)"
    by blast
next
  let ?env = "ledger Map.empty"
  let ?request = "(approver_request ''Rinvest4@Gmail.com'' JNull)\<lparr>json_body := None\<rparr>"
  have "getAuthenticatedEmail ?request = JStr ''Rinvest4@Gmail.com'' \<and>
      map lower_char ''Rinvest4@Gmail.com'' \<in> set ALLOWED_APPROVERS \<and>
      json_body ?request = None"
    by (simp add: approver_request_def getAuthenticatedEmail_def lower_char_eval
        ALLOWED_APPROVERS_def)
  with checks_in_source_order [of ?request "''T''" ?env "''Rinvest4@Gmail.com''"]
  show "approve_onRequestPost ''T'' ?request ?env =
      (Returned (json (JObj [(''error'', JStr ''Invalid JSON body'')]) 400), ?env)"
    by blast
next
  let ?env = "ledger Map.empty"
  let ?payload = "JObj [(''action'', JStr ''bogus'')]"
  let ?request = "approver_request ''Rinvest4@Gmail.com'' ?payload"
  have "getAuthenticatedEmail ?request = JStr ''Rinvest4@Gmail.com'' \<and>
      map lower_char ''Rinvest4@Gmail.com'' \<in> set ALLOWED_APPROVERS \<and>
      json_body ?request = Some ?payload \<and>
      get_prop ?payload ''id'' = Inr None \<and>
      get_prop ?payload ''action'' = Inr (Some (JStr ''bogus'')) \<and>
      (\<not> truthy None \<or> \<not> truthy (Some (JStr ''bogus'')))"
    by (simp add: approver_request_def getAuthenticatedEmail_def lower_char_eval
        ALLOWED_APPROVERS_def)
  with checks_in_source_order [of ?request "''T''" ?env "''Rinvest4@Gmail.com''" ?payload
      None "Some (JStr ''bogus'')"]
  show "approve_onRequestPost ''T'' ?request ?env =
      (Returned (json (JObj [(''error'', JStr ''Missing required fields: id, action'')]) 400),
       ?env)"
    by blast
next
  let ?env = "ledger Map.empty"
  let ?payload = "JObj [(''id'', JStr ''A''), (''action'', JStr ''bogus'')]"
  let ?request = "approver_request ''Rinvest4@Gmail.com'' ?payload"
  have "getAuthenticatedEmail ?request = JStr ''Rinvest4@Gmail.com'' \<and>
      map lower_char ''Rinvest4@Gmail.com'' \<in> set ALLOWED_APPROVERS \<and>
      json_body ?request = Some ?payload \<and>
      get_prop ?payload ''id'' = Inr (Some (JStr ''A'')) \<and>
      get_prop ?payload ''action'' = Inr (Some (JStr ''bogus'')) \<and>
      truthy (Some (JStr ''A'')) \<and> truthy (Some (JStr ''bogus'')) \<and>
      Some (JStr ''bogus'') \<noteq> Some (JStr ''approve'') \<and>
      Some (JStr ''bogus'') \<noteq> Some (JStr ''reject'')"
    by (simp add: approver_request_def getAuthenticatedEmail_def lower_char_eval
        ALLOWED_APPROVERS_def)
  with checks_in_source_order [of ?request "''T''" ?env "''Rinvest4@Gmail.com''" ?payload
      "Some (JStr ''A'')" "Some (JStr ''bogus'')"]
  show "approve_onRequestPost ''T'' ?request ?env =
      (Returned (json (JObj [(''error'', JStr invalid_action_message)]) 400), ?env)"
    by blast
next
  let ?payload = "JObj [(''id'', JStr ''A''), (''action'', JStr ''approve'')]"
  let ?request = "approver_request ''Rinvest4@Gmail.com'' ?payload"
  have email: "getAuthenticatedEmail ?request = JStr ''Rinvest4@Gmail.com''"
    by (simp add: approver_request_def getAuthenticatedEmail_def)
  have allowed: "map lower_char ''Rinvest4@Gmail.com'' \<in> set ALLOWED_APPROVERS"
    by (simp add: lower_char_eval ALLOWED_APPROVERS_def)
  have payload: "json_body ?request = Some ?payload"
    by (simp add: approver_request_def)
  from email payload
  have scope: "(getAuthenticatedEmail ?request = JNull \<or>
      (\<exists>e. getAuthenticatedEmail ?request = JStr e)) \<and> json_body ?request \<noteq> Some JNull"
    by simp
  note all = checks_in_source_order [of ?request "''T''" "ledger Map.empty" "[]" JNull None None]
  note last = all [THEN conjunct2, THEN conjunct2, THEN conjunct2, THEN conjunct2,
      THEN conjunct2, THEN conjunct2, THEN conjunct2, THEN conjunct2]
  from last [THEN mp, OF scope]
  have "getAuthenticatedEmail ?request = JNull \<or>
      (\<exists>e. getAuthenticatedEmail ?request = JStr e \<and> e \<noteq> [] \<and>
           map lower_char e \<notin> set ALLOWED_APPROVERS) \<or>
      (\<exists>e. getAuthenticatedEmail ?request = JStr e \<and>
           map lower_char e \<in> set ALLOWED_APPROVERS \<and> json_body ?request = None) \<or>
      (\<exists>e body i a.
           getAuthenticatedEmail ?request = JStr e \<and>
           map lower_char e \<in> set ALLOWED_APPROVERS \<and> json_body ?request = Some body \<and>
           get_prop body ''id'' = Inr i \<and> get_prop body ''action'' = Inr a \<and>
           (\<not> truthy i \<or> \<not> truthy a)) \<or>
      (\<exists>e body i a.
           getAuthenticatedEmail ?request = JStr e \<and>
           map lower_char e \<in> set ALLOWED_APPROVERS \<and> json_body ?request = Some body \<and>
           get_prop body ''id'' = Inr i \<and> get_prop body ''action'' = Inr a \<and>
           truthy i \<and> truthy a \<and>
           a \<noteq> Some (JStr ''approve'') \<and> a \<noteq> Some (JStr ''reject'')) \<or>
      (\<exists>checked. validate ?request = Inr checked)" .
  with email allowed payload show "\<exists>checked. validate ?request = Inr checked"
    by auto
qed

text \<open>
  C4 as stated puts the check of \<open>id\<close> and \<open>action\<close> before the allow-list. A caller outside
  the allow-list whose body has no \<open>id\<close> is answered 403, not with the missing-field
  failure.
\<close>

theorem missing_field_after_allow_list_counterexample:
  "get_prop (JObj [(''action'', JStr ''bogus'')]) ''id'' = Inr None \<and>
   fst (approve_onRequestPost ''T''
          (approver_request ''mallory@example.com'' (JObj [(''action'', JStr ''bogus'')]))
          (ledger Map.empty)) =
     Returned (json (JObj [(''error'', JStr forbidden_message)]) 403) \<and>
   fst (approve_onRequestPost ''T''
          (approver_request ''mallory@example.com'' (JObj [(''action'', JStr ''bogus'')]))
          (ledger Map.empty)) \<noteq>
     Returned (json (JObj [(''error'', JStr ''Missing required fields: id, action'')]) 400)"
  by (simp add: approve_onRequestPost_def validate_def approver_request_def
      getAuthenticatedEmail_def lower_char_eval ALLOWED_APPROVERS_def json_def)

section \<open>Properties of the status relay\<close>

lemma agents_text_total:
  "statusData \<noteq> JNull \<Longrightarrow> \<exists>agents. agents_text statusData = Inr agents"
proof -
  assume "statusData \<noteq> JNull"
  then obtain field where s: "get_prop statusData ''summary'' = Inr field"
    by (cases statusData) simp_all
  show ?thesis
  proof (cases "truthy field")
    case False
    with s show ?thesis by (cases field) (simp_all add: agents_text_def)
  next
    case True
    then obtain summary where v: "field = Some summary"
      by (cases field) auto
    with True have "summary \<noteq> JNull" by auto
    then obtain n where "get_prop summary ''active_agents'' = Inr n"
      by (cases summary) simp_all
    with s True v show ?thesis by (simp add: agents_text_def)
  qed
qed

lemma sync_accepted:
  assumes "SYNC_SECRET env = Some secret" and "secret \<noteq> []"
    and "authorization request = Some header" and "replace ''Bearer '' [] header = secret"
    and "json_body request = Some statusData"
  shows "sync_onRequestPost now1 now2 request env =
    (let env1 = (case DASHBOARD_DATA env of
                   None \<Rightarrow> env
                 | Some kv \<Rightarrow>
                     env\<lparr>DASHBOARD_DATA :=
                           Some (kv(''status'' \<mapsto> JSON_stringify statusData,
                                    ''last_sync'' \<mapsto> now1))\<rparr>)
     in case seed_pending statusData env1 of
          Inl e \<Rightarrow> (Threw e, env1)
        | Inr env2 \<Rightarrow>
            (case agents_text statusData of
               Inl e \<Rightarrow> (Threw e, env2)
             | Inr agents \<Rightarrow>
                 (Returned
                    (json (JObj [(''ok'', JBool True),
                                 (''received_at'', JStr now2),
                                 (''agents'', JStr agents)]) 200),
                  env2)))"
  using assms by (simp add: sync_onRequestPost_def Let_def)

lemma sync_keeps_bindings:
  "APPROVALS env = Some kv \<Longrightarrow> kv ''pending'' = Some p \<Longrightarrow>
   APPROVALS (snd (sync_onRequestPost now1 now2 request env)) = Some kv"
  by (auto simp add: sync_onRequestPost_def Let_def seed_pending_def
      split: option.splits sum.splits)

lemma sync_stores_status:
  assumes "SYNC_SECRET env = Some secret" and "secret \<noteq> []"
    and "authorization request = Some header" and "replace ''Bearer '' [] header = secret"
    and "json_body request = Some statusData"
    and "DASHBOARD_DATA env = Some kv"
  shows "DASHBOARD_DATA (snd (sync_onRequestPost now1 now2 request env)) =
    Some (kv(''status'' \<mapsto> JSON_stringify statusData, ''last_sync'' \<mapsto> now1))"
  using assms
  by (auto simp add: sync_onRequestPost_def Let_def seed_pending_def
      split: option.splits sum.splits)

lemma sync_keeps_secret:
  "SYNC_SECRET (snd (sync_onRequestPost now1 now2 request env)) = SYNC_SECRET env"
  by (auto simp add: sync_onRequestPost_def Let_def seed_pending_def
      split: option.splits sum.splits)

lemma agents_text_AB: "agents_text snapshot_AB = Inr ''3 active''"
  by (simp add: agents_text_def snapshot_AB_def Number_toString_def digit_def char_of_def bit_0)

text \<open>
  C3. With the approvals namespace bound and no \<open>pending\<close> key in it, an accepted push
  writes \<open>pending_approvals || []\<close> of the snapshot under \<open>pending\<close>: the list itself when the
  snapshot has one, the empty array when the field is absent; and the push after it leaves
  that value. Whenever a \<open>pending\<close> value is there, a push (accepted or not) leaves the
  approvals namespace as it was.
\<close>

theorem pending_seeded_once:
  assumes "APPROVALS env = Some kv"
  shows "(SYNC_SECRET env = Some secret \<and> secret \<noteq> [] \<and>
          authorization request = Some header \<and> replace ''Bearer '' [] header = secret \<and>
          json_body request = Some statusData \<and>
          get_prop statusData ''pending_approvals'' = Inr v \<and>
          kv ''pending'' = None \<longrightarrow>
            APPROVALS (snd (sync_onRequestPost now1 now2 request env)) =
              Some (kv(''pending'' \<mapsto> logical_or v (JArr []))) \<and>
            (\<forall>items. v = Some (JArr items) \<longrightarrow> logical_or v (JArr []) = JArr items) \<and>
            (v = None \<longrightarrow> logical_or v (JArr []) = JArr []) \<and>
            APPROVALS (snd (sync_onRequestPost now3 now4 request'
                         (snd (sync_onRequestPost now1 now2 request env)))) =
              Some (kv(''pending'' \<mapsto> logical_or v (JArr [])))) \<and>
         (\<forall>p. kv ''pending'' = Some p \<longrightarrow>
            APPROVALS (snd (sync_onRequestPost now1 now2 request env)) = Some kv)"
proof (intro conjI impI allI)
  fix p assume "kv ''pending'' = Some p"
  with assms show "APPROVALS (snd (sync_onRequestPost now1 now2 request env)) = Some kv"
    by (rule sync_keeps_bindings)
next
  assume a: "SYNC_SECRET env = Some secret \<and> secret \<noteq> [] \<and>
          authorization request = Some header \<and> replace ''Bearer '' [] header = secret \<and>
          json_body request = Some statusData \<and>
          get_prop statusData ''pending_approvals'' = Inr v \<and>
          kv ''pending'' = None"
  then have nn: "statusData \<noteq> JNull" by auto
  from agents_text_total [OF nn] obtain agents where ag: "agents_text statusData = Inr agents"
    by blast
  from a have "sync_onRequestPost now1 now2 request env =
    (let env1 = (case DASHBOARD_DATA env of
                   None \<Rightarrow> env
                 | Some kv \<Rightarrow>
                     env\<lparr>DASHBOARD_DATA :=
                           Some (kv(''status'' \<mapsto> JSON_stringify statusData,
                                    ''last_sync'' \<mapsto> now1))\<rparr>)
     in case seed_pending statusData env1 of
          Inl e \<Rightarrow> (Threw e, env1)
        | Inr env2 \<Rightarrow>
            (case agents_text statusData of
               Inl e \<Rightarrow> (Threw e, env2)
             | Inr agents \<Rightarrow>
                 (Returned
                    (json (JObj [(''ok'', JBool True),
                                 (''received_at'', JStr now2),
                                 (''agents'', JStr agents)]) 200),
                  env2)))"
    by (intro sync_accepted) simp_all
  with a ag assms
  show first: "APPROVALS (snd (sync_onRequestPost now1 now2 request env)) =
      Some (kv(''pending'' \<mapsto> logical_or v (JArr [])))"
    by (simp add: Let_def seed_pending_def split: option.splits)
  have "(kv(''pending'' \<mapsto> logical_or v (JArr []))) ''pending'' = Some (logical_or v (JArr []))"
    by simp
  from sync_keeps_bindings [OF first this]
  show "APPROVALS (snd (sync_onRequestPost now3 now4 request'
                         (snd (sync_onRequestPost now1 now2 request env)))) =
      Some (kv(''pending'' \<mapsto> logical_or v (JArr [])))" .
next
  fix items assume "v = Some (JArr items)"
  then show "logical_or v (JArr []) = JArr items" by simp
next
  assume "v = None"
  then show "logical_or v (JArr []) = JArr []" by simp
qed

theorem pending_seeded_once_witness:
  "APPROVALS (snd (sync_onRequestPost ''T1'' ''T2'' (push_request ''s3cret'' snapshot_AB)
                     (relay None (Some Map.empty)))) =
     Some [''pending'' \<mapsto> JArr [JObj [(''id'', JStr ''A'')], JObj [(''id'', JStr ''B'')]]] \<and>
   APPROVALS (snd (sync_onRequestPost ''T3'' ''T4'' (push_request ''s3cret'' (JObj []))
                (snd (sync_onRequestPost ''T1'' ''T2'' (push_request ''s3cret'' snapshot_AB)
                     (relay None (Some Map.empty)))))) =
     Some [''pending'' \<mapsto> JArr [JObj [(''id'', JStr ''A'')], JObj [(''id'', JStr ''B'')]]] \<and>
   APPROVALS (snd (sync_onRequestPost ''T1'' ''T2'' (push_request ''s3cret'' (JObj []))
                     (relay None (Some Map.empty)))) =
     Some [''pending'' \<mapsto> JArr []] \<and>
   APPROVALS (snd (sync_onRequestPost ''T1'' ''T2'' (push_request ''s3cret'' snapshot_AB)
                     (relay None (Some [''pending'' \<mapsto> JArr [JObj [(''id'', JStr ''C'')]]])))) =
     Some [''pending'' \<mapsto> JArr [JObj [(''id'', JStr ''C'')]]]"
proof -
  let ?env = "relay None (Some Map.empty)"
  let ?AB = "JArr [JObj [(''id'', JStr ''A'')], JObj [(''id'', JStr ''B'')]]"
  have env: "APPROVALS ?env = Some Map.empty" by (simp add: relay_def)
  have pre: "SYNC_SECRET ?env = Some ''s3cret'' \<and> ''s3cret'' \<noteq> [] \<and>
      authorization (push_request ''s3cret'' snapshot_AB) = Some (''Bearer '' @ ''s3cret'') \<and>
      replace ''Bearer '' [] (''Bearer '' @ ''s3cret'') = ''s3cret'' \<and>
      json_body (push_request ''s3cret'' snapshot_AB) = Some snapshot_AB \<and>
      get_prop snapshot_AB ''pending_approvals'' = Inr (Some ?AB) \<and>
      (Map.empty :: string \<rightharpoonup> json_value) ''pending'' = None"
    by (simp add: relay_def push_request_def snapshot_AB_def)
  have pre': "SYNC_SECRET ?env = Some ''s3cret'' \<and> ''s3cret'' \<noteq> [] \<and>
      authorization (push_request ''s3cret'' (JObj [])) = Some (''Bearer '' @ ''s3cret'') \<and>
      replace ''Bearer '' [] (''Bearer '' @ ''s3cret'') = ''s3cret'' \<and>
      json_body (push_request ''s3cret'' (JObj [])) = Some (JObj []) \<and>
      get_prop (JObj []) ''pending_approvals'' = Inr None \<and>
      (Map.empty :: string \<rightharpoonup> json_value) ''pending'' = None"
    by (simp add: relay_def push_request_def)
  let ?envC = "relay None (Some [''pending'' \<mapsto> JArr [JObj [(''id'', JStr ''C'')]]])"
  have envC: "APPROVALS ?envC = Some [''pending'' \<mapsto> JArr [JObj [(''id'', JStr ''C'')]]]"
    by (simp add: relay_def)
  have preC: "[''pending'' \<mapsto> JArr [JObj [(''id'', JStr ''C'')]]] ''pending'' =
      Some (JArr [JObj [(''id'', JStr ''C'')]])"
    by simp
  from pending_seeded_once [OF env, of "''s3cret''" "push_request ''s3cret'' snapshot_AB"
      "''Bearer '' @ ''s3cret''" snapshot_AB "Some ?AB" "''T1''" "''T2''" "''T3''" "''T4''"
      "push_request ''s3cret'' (JObj [])"] pre
  have 1: "APPROVALS (snd (sync_onRequestPost ''T1'' ''T2'' (push_request ''s3cret'' snapshot_AB)
        ?env)) = Some [''pending'' \<mapsto> ?AB]"
    and 2: "APPROVALS (snd (sync_onRequestPost ''T3'' ''T4'' (push_request ''s3cret'' (JObj []))
          (snd (sync_onRequestPost ''T1'' ''T2'' (push_request ''s3cret'' snapshot_AB) ?env)))) =
        Some [''pending'' \<mapsto> ?AB]"
    by simp_all
  from pending_seeded_once [OF env, of "''s3cret''" "push_request ''s3cret'' (JObj [])"
      "''Bearer '' @ ''s3cret''" "JObj []" None "''T1''" "''T2''"] pre'
  have 3: "APPROVALS (snd (sync_onRequestPost ''T1'' ''T2'' (push_request ''s3cret'' (JObj []))
        ?env)) = Some [''pending'' \<mapsto> JArr []]"
    by simp
  from pending_seeded_once [OF envC, of _ "push_request ''s3cret'' snapshot_AB" _ _ _
      "''T1''" "''T2''"] preC
  have 4: "APPROVALS (snd (sync_onRequestPost ''T1'' ''T2'' (push_request ''s3cret'' snapshot_AB)
        ?envC)) = Some [''pending'' \<mapsto> JArr [JObj [(''id'', JStr ''C'')]]]"
    by blast
  from 1 2 3 4 show ?thesis by simp
qed

text \<open>
  C8. \<open>GET /api/sync\<close> answers 404 when the status namespace is unbound or holds no \<open>status\<close>
  key, and otherwise hands out the stored text as it is. After an accepted push on a bound
  namespace the stored text is \<open>JSON.stringify\<close> of the pushed snapshot and the response body
  is that text; after a second push it is the text of the second snapshot.
\<close>

theorem latest_snapshot_verbatim:
  "(DASHBOARD_DATA env = None \<or> (\<exists>kv. DASHBOARD_DATA env = Some kv \<and> kv ''status'' = None) \<longrightarrow>
      sync_onRequestGet env =
        json (JObj [(''error'', JStr ''No status data available. Waiting for first sync.'')])
          404) \<and>
   (DASHBOARD_DATA env = Some kv \<and> kv ''status'' = Some data \<and> data \<noteq> [] \<longrightarrow>
      sync_onRequestGet env =
        \<lparr>status = 200,
         headers = [(''Content-Type'', ''application/json''), (''Cache-Control'', ''no-store'')],
         body = data\<rparr>) \<and>
   (SYNC_SECRET env = Some secret \<and> secret \<noteq> [] \<and>
    authorization request = Some header \<and> replace ''Bearer '' [] header = secret \<and>
    json_body request = Some statusData \<and>
    authorization request' = Some header' \<and> replace ''Bearer '' [] header' = secret \<and>
    json_body request' = Some statusData' \<and>
    DASHBOARD_DATA env = Some kv \<longrightarrow>
      (\<exists>kv'. DASHBOARD_DATA (snd (sync_onRequestPost now1 now2 request env)) = Some kv' \<and>
             kv' ''status'' = Some (JSON_stringify statusData)) \<and>
      sync_onRequestGet (snd (sync_onRequestPost now1 now2 request env)) =
        \<lparr>status = 200,
         headers = [(''Content-Type'', ''application/json''), (''Cache-Control'', ''no-store'')],
         body = JSON_stringify statusData\<rparr> \<and>
      sync_onRequestGet
        (snd (sync_onRequestPost now3 now4 request'
               (snd (sync_onRequestPost now1 now2 request env)))) =
        \<lparr>status = 200,
         headers = [(''Content-Type'', ''application/json''), (''Cache-Control'', ''no-store'')],
         body = JSON_stringify statusData'\<rparr>)"
proof (intro conjI impI)
  assume "DASHBOARD_DATA env = None \<or>
    (\<exists>kv. DASHBOARD_DATA env = Some kv \<and> kv ''status'' = None)"
  then show "sync_onRequestGet env =
      json (JObj [(''error'', JStr ''No status data available. Waiting for first sync.'')]) 404"
    by (auto simp add: sync_onRequestGet_def)
next
  assume "DASHBOARD_DATA env = Some kv \<and> kv ''status'' = Some data \<and> data \<noteq> []"
  then show "sync_onRequestGet env =
      \<lparr>status = 200,
       headers = [(''Content-Type'', ''application/json''), (''Cache-Control'', ''no-store'')],
       body = data\<rparr>"
    by (simp add: sync_onRequestGet_def)
next
  assume a: "SYNC_SECRET env = Some secret \<and> secret \<noteq> [] \<and>
    authorization request = Some header \<and> replace ''Bearer '' [] header = secret \<and>
    json_body request = Some statusData \<and>
    authorization request' = Some header' \<and> replace ''Bearer '' [] header' = secret \<and>
    json_body request' = Some statusData' \<and>
    DASHBOARD_DATA env = Some kv"
  let ?env1 = "snd (sync_onRequestPost now1 now2 request env)"
  let ?kv1 = "kv(''status'' \<mapsto> JSON_stringify statusData, ''last_sync'' \<mapsto> now1)"
  from a have 1: "DASHBOARD_DATA ?env1 = Some ?kv1"
    by (intro sync_stores_status) simp_all
  then show "\<exists>kv'. DASHBOARD_DATA ?env1 = Some kv' \<and>
      kv' ''status'' = Some (JSON_stringify statusData)"
    by simp
  from 1 show "sync_onRequestGet ?env1 =
      \<lparr>status = 200,
       headers = [(''Content-Type'', ''application/json''), (''Cache-Control'', ''no-store'')],
       body = JSON_stringify statusData\<rparr>"
    by (simp add: sync_onRequestGet_def JSON_stringify_not_empty)
  from a have "SYNC_SECRET ?env1 = Some secret" by (simp add: sync_keeps_secret)
  with a 1 have "DASHBOARD_DATA (snd (sync_onRequestPost now3 now4 request' ?env1)) =
      Some (?kv1(''status'' \<mapsto> JSON_stringify statusData', ''last_sync'' \<mapsto> now3))"
    by (intro sync_stores_status) simp_all
  then show "sync_onRequestGet (snd (sync_onRequestPost now3 now4 request' ?env1)) =
      \<lparr>status = 200,
       headers = [(''Content-Type'', ''application/json''), (''Cache-Control'', ''no-store'')],
       body = JSON_stringify statusData'\<rparr>"
    by (simp add: sync_onRequestGet_def JSON_stringify_not_empty)
qed

theorem latest_snapshot_verbatim_witness:
  "sync_onRequestGet (relay None None) =
     json (JObj [(''error'', JStr ''No status data available. Waiting for first sync.'')]) 404 \<and>
   sync_onRequestGet (relay (Some Map.empty) None) =
     json (JObj [(''error'', JStr ''No status data available. Waiting for first sync.'')]) 404 \<and>
   sync_onRequestGet (relay (Some [''status'' \<mapsto> ''{ }'']) None) =
     \<lparr>status = 200,
      headers = [(''Content-Type'', ''application/json''), (''Cache-Control'', ''no-store'')],
      body = ''{ }''\<rparr> \<and>
   sync_onRequestGet
     (snd (sync_onRequestPost ''T1'' ''T2'' (push_request ''s3cret'' snapshot_AB)
            (relay (Some Map.empty) None))) =
     \<lparr>status = 200,
      headers = [(''Content-Type'', ''application/json''), (''Cache-Control'', ''no-store'')],
      body = JSON_stringify snapshot_AB\<rparr> \<and>
   sync_onRequestGet
     (snd (sync_onRequestPost ''T3'' ''T4'' (push_request ''s3cret'' (JObj []))
            (snd (sync_onRequestPost ''T1'' ''T2'' (push_request ''s3cret'' snapshot_AB)
                   (relay (Some Map.empty) None))))) =
     \<lparr>status = 200,
      headers = [(''Content-Type'', ''application/json''), (''Cache-Control'', ''no-store'')],
      body = ''{}''\<rparr>"
proof -
  have a: "DASHBOARD_DATA (relay None None) = None \<or>
      (\<exists>kv. DASHBOARD_DATA (relay None None) = Some kv \<and> kv ''status'' = None)"
    by (simp add: relay_def)
  have b: "DASHBOARD_DATA (relay (Some Map.empty) None) = None \<or>
      (\<exists>kv. DASHBOARD_DATA (relay (Some Map.empty) None) = Some kv \<and> kv ''status'' = None)"
    by (simp add: relay_def)
  have c: "DASHBOARD_DATA (relay (Some [''status'' \<mapsto> ''{ }'']) None) =
        Some [''status'' \<mapsto> ''{ }''] \<and>
      [''status'' \<mapsto> ''{ }''] ''status'' = Some ''{ }'' \<and> ''{ }'' \<noteq> []"
    by (simp add: relay_def)
  have d: "SYNC_SECRET (relay (Some Map.empty) None) = Some ''s3cret'' \<and> ''s3cret'' \<noteq> [] \<and>
      authorization (push_request ''s3cret'' snapshot_AB) = Some (''Bearer '' @ ''s3cret'') \<and>
      replace ''Bearer '' [] (''Bearer '' @ ''s3cret'') = ''s3cret'' \<and>
      json_body (push_request ''s3cret'' snapshot_AB) = Some snapshot_AB \<and>
      authorization (push_request ''s3cret'' (JObj [])) = Some (''Bearer '' @ ''s3cret'') \<and>
      replace ''Bearer '' [] (''Bearer '' @ ''s3cret'') = ''s3cret'' \<and>
      json_body (push_request ''s3cret'' (JObj [])) = Some (JObj []) \<and>
      DASHBOARD_DATA (relay (Some Map.empty) None) = Some Map.empty"
    by (simp add: relay_def push_request_def)
  have e: "JSON_stringify (JObj []) = ''{}''" by simp
  from latest_snapshot_verbatim [of "relay None None"] a
  have 1: "sync_onRequestGet (relay None None) =
      json (JObj [(''error'', JStr ''No status data available. Waiting for first sync.'')]) 404"
    by blast
  from latest_snapshot_verbatim [of "relay (Some Map.empty) None"] b
  have 2: "sync_onRequestGet (relay (Some Map.empty) None) =
      json (JObj [(''error'', JStr ''No status data available. Waiting for first sync.'')]) 404"
    by blast
  from latest_snapshot_verbatim [of "relay (Some [''status'' \<mapsto> ''{ }'']) None"
      "[''status'' \<mapsto> ''{ }'']" "''{ }''"] c
  have 3: "sync_onRequestGet (relay (Some [''status'' \<mapsto> ''{ }'']) None) =
      \<lparr>status = 200,
       headers = [(''Content-Type'', ''application/json''), (''Cache-Control'', ''no-store'')],
       body = ''{ }''\<rparr>"
    by blast
  from latest_snapshot_verbatim [of "relay (Some Map.empty) None" Map.empty _ "''s3cret''"
      "push_request ''s3cret'' snapshot_AB" "''Bearer '' @ ''s3cret''" snapshot_AB
      "push_request ''s3cret'' (JObj [])" "''Bearer '' @ ''s3cret''" "JObj []"
      "''T1''" "''T2''" "''T3''" "''T4''"] d
  have 4: "sync_onRequestGet
      (snd (sync_onRequestPost ''T1'' ''T2'' (push_request ''s3cret'' snapshot_AB)
             (relay (Some Map.empty) None))) =
      \<lparr>status = 200,
       headers = [(''Content-Type'', ''application/json''), (''Cache-Control'', ''no-store'')],
       body = JSON_stringify snapshot_AB\<rparr>"
    and 5: "sync_onRequestGet
      (snd (sync_onRequestPost ''T3'' ''T4'' (push_request ''s3cret'' (JObj []))
             (snd (sync_onRequestPost ''T1'' ''T2'' (push_request ''s3cret'' snapshot_AB)
                    (relay (Some Map.empty) None))))) =
      \<lparr>status = 200,
       headers = [(''Content-Type'', ''application/json''), (''Cache-Control'', ''no-store'')],
       body = JSON_stringify (JObj [])\<rparr>"
    by blast+
  from 1 2 3 4 5 e show ?thesis by simp
qed

text \<open>
  C10. With the status namespace unbound and the approvals namespace bound without a
  \<open>pending\<close> key, an accepted push of a snapshot (any document but \<open>null\<close>) answers 200 and
  seeds the pending queue, while no snapshot and no \<open>last_sync\<close> is stored: the status
  binding stays unbound.
\<close>

theorem seeding_without_status_store:
  assumes "SYNC_SECRET env = Some secret" and "secret \<noteq> []"
    and "authorization request = Some header" and "replace ''Bearer '' [] header = secret"
    and "json_body request = Some statusData"
    and "get_prop statusData ''pending_approvals'' = Inr v"
    and "DASHBOARD_DATA env = None"
    and "APPROVALS env = Some kv"
    and "kv ''pending'' = None"
  shows "\<exists>agents. agents_text statusData = Inr agents \<and>
    sync_onRequestPost now1 now2 request env =
      (Returned
         (json (JObj [(''ok'', JBool True), (''received_at'', JStr now2),
                      (''agents'', JStr agents)]) 200),
       env\<lparr>APPROVALS := Some (kv(''pending'' \<mapsto> logical_or v (JArr [])))\<rparr>) \<and>
    DASHBOARD_DATA (env\<lparr>APPROVALS := Some (kv(''pending'' \<mapsto> logical_or v (JArr [])))\<rparr>) =
      None"
proof -
  from assms(6) have "statusData \<noteq> JNull" by auto
  from agents_text_total [OF this] obtain agents where ag: "agents_text statusData = Inr agents"
    by blast
  with assms have "sync_onRequestPost now1 now2 request env =
    (Returned
       (json (JObj [(''ok'', JBool True), (''received_at'', JStr now2),
                    (''agents'', JStr agents)]) 200),
     env\<lparr>APPROVALS := Some (kv(''pending'' \<mapsto> logical_or v (JArr [])))\<rparr>)"
    by (simp add: sync_onRequestPost_def Let_def seed_pending_def)
  with assms(7) ag show ?thesis by simp
qed

theorem seeding_without_status_store_witness:
  "sync_onRequestPost ''T1'' ''T2'' (push_request ''s3cret'' snapshot_AB)
     (relay None (Some Map.empty)) =
   (Returned
      (json (JObj [(''ok'', JBool True), (''received_at'', JStr ''T2''),
                   (''agents'', JStr ''3 active'')]) 200),
    relay None
      (Some [''pending'' \<mapsto> JArr [JObj [(''id'', JStr ''A'')], JObj [(''id'', JStr ''B'')]]]))"
proof -
  let ?env = "relay None (Some Map.empty)"
  let ?AB = "JArr [JObj [(''id'', JStr ''A'')], JObj [(''id'', JStr ''B'')]]"
  have a: "SYNC_SECRET ?env = Some ''s3cret''" by (simp add: relay_def)
  have b: "''s3cret'' \<noteq> []" by simp
  have c: "authorization (push_request ''s3cret'' snapshot_AB) = Some (''Bearer '' @ ''s3cret'')"
    by (simp add: push_request_def)
  have d: "replace ''Bearer '' [] (''Bearer '' @ ''s3cret'') = ''s3cret''" by simp
  have e: "json_body (push_request ''s3cret'' snapshot_AB) = Some snapshot_AB"
    by (simp add: push_request_def)
  have f: "get_prop snapshot_AB ''pending_approvals'' = Inr (Some ?AB)"
    by (simp add: snapshot_AB_def)
  have g: "DASHBOARD_DATA ?env = None" by (simp add: relay_def)
  have h: "APPROVALS ?env = Some Map.empty" by (simp add: relay_def)
  have i: "(Map.empty :: string \<rightharpoonup> json_value) ''pending'' = None" by simp
  from seeding_without_status_store [OF a b c d e f g h i, of "''T1''" "''T2''"]
  show ?thesis by (simp add: agents_text_AB relay_def)
qed

text \<open>
  The \<open>agents\<close> field of the response: the handler tests \<open>statusData.summary\<close>, not
  \<open>summary.active_agents\<close>.
\<close>

lemma agents_text_cases:
  "(get_prop statusData ''summary'' = Inr summary \<and> \<not> truthy summary \<longrightarrow>
      agents_text statusData = Inr ''unknown'') \<and>
   (get_prop statusData ''summary'' = Inr (Some (JObj kvs)) \<longrightarrow>
      agents_text statusData = Inr (ToString_opt (map_of kvs ''active_agents'') @ '' active''))"
  by (cases summary) (simp_all add: agents_text_def)

text \<open>
  C7. A snapshot whose \<open>summary\<close> is an object without \<open>active_agents\<close> is answered with
  \<open>agents: "undefined active"\<close>, not with \<open>"unknown"\<close>.
\<close>

theorem agents_undefined_without_count:
  "sync_onRequestPost ''T1'' ''T2''
     (push_request ''s3cret'' (JObj [(''summary'', JObj [])]))
     \<lparr>SYNC_SECRET = Some ''s3cret'', DASHBOARD_DATA = None, APPROVALS = None\<rparr> =
   (Returned
      (json (JObj [(''ok'', JBool True), (''received_at'', JStr ''T2''),
                   (''agents'', JStr ''undefined active'')]) 200),
    \<lparr>SYNC_SECRET = Some ''s3cret'', DASHBOARD_DATA = None, APPROVALS = None\<rparr>)"
  by (simp add: sync_onRequestPost_def push_request_def seed_pending_def agents_text_def)

end
